theory Spec2Isabelle
  imports Main "HOL-Library.Word"
begin

unbundle bit_operations_syntax

section \<open>The CHIP-8 virtual machine of chopper (package internal)\<close>

text \<open>
  The model follows the Go source of the separated design (package \<open>internal\<close>, type
  \<open>C8VM\<close>). Go's fixed-size arrays are total functions on the index, and every index
  that can leave the array's range is checked where the source indexes: Go's runtime
  check aborts the call with an index-out-of-range panic, which the model returns as
  \<open>Panic\<close> (from a helper: \<open>None\<close>). Unsigned integers are words, so \<open>+\<close>, \<open>-\<close>
  and \<open>*\<close> wrap as Go's do. The field \<open>key\<close> is an \<open>int16\<close> in the source; only
  bitwise operations and equality are applied to it, so its bit pattern is kept as a
  16-bit word.
\<close>

type_synonym u8 = "8 word"
type_synonym u16 = "16 word"

definition totalMemory :: nat where
  "totalMemory = 0x1000"

definition pcStartAddr :: nat where
  "pcStartAddr = 0x200"

definition maxProgramSize :: nat where
  "maxProgramSize = totalMemory - pcStartAddr"

definition ScreenWidth :: u8 where
  "ScreenWidth = 64"

definition ScreenHeight :: u8 where
  "ScreenHeight = 32"

record C8VM =
  opcode :: u16
  regV :: "nat \<Rightarrow> u8"
  regI :: u16
  delayTimer :: u8
  soundTimer :: u8
  pc :: u16
  sp :: u8
  stack :: "nat \<Rightarrow> u16"
  memory :: "nat \<Rightarrow> u8"
  prevTime :: nat
  clearFlag :: bool
  drawFlag :: bool
  key :: u16
  pixels :: "nat \<Rightarrow> nat \<Rightarrow> u8"

datatype error = UnknownOpcode u16 | ProgramTooLarge

text \<open>
  What a call of \<open>ReadNextInstruction\<close> leaves behind: \<open>Ok\<close> is the return of
  \<open>nil\<close>, \<open>Err\<close> the return of an error with the state as the call left it (the
  receiver is a pointer, so the caller sees it), \<open>Panic\<close> a runtime panic.
\<close>

datatype result = Ok C8VM | Err error C8VM | Panic

definition fontset :: "u8 list" where
  "fontset =
    [0xF0, 0x90, 0x90, 0x90, 0xF0,
     0x20, 0x60, 0x20, 0x20, 0x70,
     0xF0, 0x10, 0xF0, 0x80, 0xF0,
     0xF0, 0x10, 0xF0, 0x10, 0xF0,
     0x90, 0x90, 0xF0, 0x10, 0x10,
     0xF0, 0x80, 0xF0, 0x10, 0xF0,
     0xF0, 0x80, 0xF0, 0x90, 0xF0,
     0xF0, 0x10, 0x20, 0x40, 0x40,
     0xF0, 0x90, 0xF0, 0x90, 0xF0,
     0xF0, 0x90, 0xF0, 0x10, 0xF0,
     0xF0, 0x90, 0xF0, 0x90, 0x90,
     0xE0, 0x90, 0xE0, 0x90, 0xE0,
     0xF0, 0x80, 0x80, 0x80, 0xF0,
     0xE0, 0x90, 0x90, 0x90, 0xE0,
     0xF0, 0x80, 0xF0, 0x80, 0xF0,
     0xF0, 0x80, 0xF0, 0x80, 0x80]"

text \<open>
  \<open>NewC8VM\<close>: the zero value of the struct with \<open>pc = pcStartAddr\<close> and the fontset
  copied to the start of memory. The time stamp \<open>time.Now()\<close> is the parameter \<open>now\<close>.
  \<open>copy\<close> returns the length of the shorter slice, here always \<open>len(fontset)\<close>, so the
  error branch of the source is dead.
\<close>

definition NewC8VM :: "nat \<Rightarrow> C8VM" where
  "NewC8VM now =
     \<lparr>opcode = 0, regV = (\<lambda>_. 0), regI = 0, delayTimer = 0, soundTimer = 0,
      pc = of_nat pcStartAddr, sp = 0, stack = (\<lambda>_. 0),
      memory = (\<lambda>a. if a < length fontset then fontset ! a else 0),
      prevTime = now, clearFlag = False, drawFlag = False, key = 0,
      pixels = (\<lambda>_ _. 0)\<rparr>"

text \<open>\<open>LoadProgram\<close>, from the bytes \<open>ioutil.ReadFile\<close> returned.\<close>

definition LoadProgram :: "u8 list \<Rightarrow> C8VM \<Rightarrow> error + C8VM" where
  "LoadProgram data vm =
     (if length data > maxProgramSize then Inl ProgramTooLarge
      else Inr (vm\<lparr>memory := (\<lambda>a. if pcStartAddr \<le> a \<and> a < pcStartAddr + length data
                                    then data ! (a - pcStartAddr) else memory vm a)\<rparr>))"

definition unknownOpcode :: "C8VM \<Rightarrow> error" where
  "unknownOpcode vm = UnknownOpcode (opcode vm)"

subsection \<open>The key mask\<close>

text \<open>
  In \<open>1 << code\<close> the constant takes the type \<open>int16\<close>, and a shift by 16 or more
  gives 0, as \<open>push_bit\<close> on a 16-bit word does.
\<close>

definition SetKeymask :: "u8 \<Rightarrow> C8VM \<Rightarrow> C8VM" where
  "SetKeymask code vm = vm\<lparr>key := key vm OR push_bit (unat code) 1\<rparr>"

definition UnsetKeymask :: "u8 \<Rightarrow> C8VM \<Rightarrow> C8VM" where
  "UnsetKeymask code vm = vm\<lparr>key := key vm XOR push_bit (unat code) 1\<rparr>"

definition issetKeymask :: "C8VM \<Rightarrow> u8 \<Rightarrow> bool" where
  "issetKeymask vm code = (let mask = push_bit (unat code) 1 in key vm AND mask = mask)"

subsection \<open>Sprite drawing\<close>

text \<open>
  One pass of the body of the inner loop of \<open>initSprite\<close>. The index arithmetic is
  \<open>uint8\<close> arithmetic, as in the source; the loop counters never exceed 255 and are
  natural numbers here.
\<close>

definition plot :: "u8 \<Rightarrow> u8 \<Rightarrow> u8 \<Rightarrow> nat \<Rightarrow> nat \<Rightarrow> C8VM \<Rightarrow> C8VM" where
  "plot x y spriteByte byteIdx bitIdx vm =
     (let bit = drop_bit bitIdx spriteByte AND 0x1;
          cx = unat ((x + (7 - of_nat bitIdx)) mod ScreenWidth);
          cy = unat ((y + of_nat byteIdx) mod ScreenHeight);
          px = pixels vm cx cy;
          vm1 = (if bit = 1 \<and> px = 1 then vm\<lparr>regV := (regV vm)(0xF := 1)\<rparr> else vm)
      in vm1\<lparr>pixels := (pixels vm1)(cx := (pixels vm1 cx)(cy := px XOR bit))\<rparr>)"

function bitLoop :: "u8 \<Rightarrow> u8 \<Rightarrow> u8 \<Rightarrow> nat \<Rightarrow> nat \<Rightarrow> C8VM \<Rightarrow> C8VM" where
  "bitLoop x y spriteByte byteIdx bitIdx vm =
     (if bitIdx < 8
      then bitLoop x y spriteByte byteIdx (Suc bitIdx) (plot x y spriteByte byteIdx bitIdx vm)
      else vm)"
  by pat_completeness auto
termination
  by (relation "measure (\<lambda>(x, y, spriteByte, byteIdx, bitIdx, vm). 8 - bitIdx)") auto

declare bitLoop.simps [simp del]

function rowLoop :: "u8 \<Rightarrow> u8 \<Rightarrow> u8 \<Rightarrow> nat \<Rightarrow> C8VM \<Rightarrow> C8VM option" where
  "rowLoop x y n byteIdx vm =
     (if byteIdx < unat n
      then (let a = unat (regI vm + of_nat byteIdx) in
            if a < totalMemory
            then rowLoop x y n (Suc byteIdx) (bitLoop x y (memory vm a) byteIdx 0 vm)
            else None)
      else Some vm)"
  by pat_completeness auto
termination
  by (relation "measure (\<lambda>(x, y, n, byteIdx, vm). unat n - byteIdx)") auto

declare rowLoop.simps [simp del]

text \<open>
  \<open>initSprite\<close> calls \<open>vm.unknownOpcode()\<close> for a height of 0 or above 15 and drops
  the error it returns: the value is bound and never used, and the drawing goes on.
\<close>

definition initSprite :: "u8 \<Rightarrow> u8 \<Rightarrow> u8 \<Rightarrow> C8VM \<Rightarrow> C8VM option" where
  "initSprite x y n vm =
     (let dropped = (if n > 15 \<or> n = 0 then Some (unknownOpcode vm) else None)
      in rowLoop x y n 0 (vm\<lparr>regV := (regV vm)(0xF := 0)\<rparr>))"

definition NullifyPixels :: "C8VM \<Rightarrow> C8VM" where
  "NullifyPixels vm =
     vm\<lparr>pixels := (\<lambda>w h. if w < unat ScreenWidth \<and> h < unat ScreenHeight then 0
                          else pixels vm w h)\<rparr>"

subsection \<open>The instruction cycle\<close>

text \<open>The first statement of \<open>ReadNextInstruction\<close>: both reads are bounds-checked.\<close>

definition fetch :: "C8VM \<Rightarrow> u16 option" where
  "fetch vm =
     (if unat (pc vm) < totalMemory \<and> unat (pc vm + 1) < totalMemory
      then Some (push_bit 8 (ucast (memory vm (unat (pc vm)))) OR
                 ucast (memory vm (unat (pc vm + 1))))
      else None)"

text \<open>The fields of an opcode, as the second to sixth statements compute them.\<close>

definition opX :: "u16 \<Rightarrow> nat" where
  "opX opc = unat (ucast (drop_bit 8 opc AND 0x000F) :: u8)"

definition opY :: "u16 \<Rightarrow> nat" where
  "opY opc = unat (ucast (drop_bit 4 opc AND 0x000F) :: u8)"

definition opN :: "u16 \<Rightarrow> u8" where
  "opN opc = ucast (opc AND 0x000F)"

definition opKK :: "u16 \<Rightarrow> u8" where
  "opKK opc = ucast (opc AND 0x00FF)"

definition opNNN :: "u16 \<Rightarrow> u16" where
  "opNNN opc = opc AND 0x0FFF"

definition advance :: "C8VM \<Rightarrow> C8VM" where
  "advance vm = vm\<lparr>pc := pc vm + 2\<rparr>"

definition setV :: "nat \<Rightarrow> u8 \<Rightarrow> C8VM \<Rightarrow> C8VM" where
  "setV i v vm = vm\<lparr>regV := (regV vm)(i := v)\<rparr>"

definition setVF :: "bool \<Rightarrow> C8VM \<Rightarrow> C8VM" where
  "setVF c vm = setV 0xF (if c then 1 else 0) vm"

definition case_0x0000 :: "u8 \<Rightarrow> C8VM \<Rightarrow> result" where
  "case_0x0000 kk vm =
     (if kk = 0xE0 then Ok (advance (vm\<lparr>clearFlag := True\<rparr>))
      else if kk = 0xEE then
        (let vm1 = vm\<lparr>sp := sp vm - 1\<rparr> in
         if unat (sp vm1) < 16 then Ok (vm1\<lparr>pc := stack vm1 (unat (sp vm1)) + 2\<rparr>)
         else Panic)
      else Err (unknownOpcode vm) vm)"

definition case_0x2000 :: "u16 \<Rightarrow> C8VM \<Rightarrow> result" where
  "case_0x2000 nnn vm =
     (if unat (sp vm) < 16
      then Ok (vm\<lparr>stack := (stack vm)(unat (sp vm) := pc vm), sp := sp vm + 1, pc := nnn\<rparr>)
      else Panic)"

definition case_0x8000 :: "nat \<Rightarrow> nat \<Rightarrow> u8 \<Rightarrow> C8VM \<Rightarrow> result" where
  "case_0x8000 x y n vm =
     (if n = 0x0 then Ok (advance (setV x (regV vm y) vm))
      else if n = 0x1 then Ok (advance (setV x (regV vm x OR regV vm y) vm))
      else if n = 0x2 then Ok (advance (setV x (regV vm x AND regV vm y) vm))
      else if n = 0x3 then Ok (advance (setV x (regV vm x XOR regV vm y) vm))
      else if n = 0x4 then
        (let temp = (ucast (regV vm x) :: u16) + ucast (regV vm y);
             vm1 = setVF (temp > 255) vm
         in Ok (advance (setV x (ucast (temp AND 0x0000FFFF)) vm1)))
      else if n = 0x5 then
        (let vm1 = setVF (regV vm x > regV vm y) vm
         in Ok (advance (setV x (regV vm1 x - regV vm1 y) vm1)))
      else if n = 0x6 then
        (let vm1 = setVF (regV vm x AND 0x01 = 1) vm
         in Ok (advance (setV x (regV vm1 x div 2) vm1)))
      else if n = 0x7 then
        (let vm1 = setVF (regV vm y > regV vm x) vm
         in Ok (advance (setV x (regV vm1 y - regV vm1 x) vm1)))
      else if n = 0xE then
        (let vm1 = setVF (regV vm x AND 0x80 = 0x80) vm
         in Ok (advance (setV x (regV vm1 x * 2) vm1)))
      else Err (unknownOpcode vm) vm)"

definition case_0xE000 :: "nat \<Rightarrow> u8 \<Rightarrow> C8VM \<Rightarrow> result" where
  "case_0xE000 x kk vm =
     (if kk = 0x9E then
        Ok (advance (if issetKeymask vm (regV vm x) then advance vm else vm))
      else if kk = 0xA1 then
        Ok (advance (if \<not> issetKeymask vm (regV vm x) then advance vm else vm))
      else Err (unknownOpcode vm) vm)"

text \<open>
  \<open>Fx0A\<close>. The inner loop runs \<open>i\<close> from 0 to 15 and tests
  \<open>vm.issetKeymask(vm.regV[x])\<close> at each pass; it returns the state and the value of
  the variable \<open>loop\<close>. The outer loop repeats while \<open>loop\<close> holds and need not end:
  \<open>None\<close> is the call that never returns.
\<close>

function keyScan :: "nat \<Rightarrow> nat \<Rightarrow> C8VM \<Rightarrow> C8VM \<times> bool" where
  "keyScan x i vm =
     (if i \<le> 0xF
      then (if issetKeymask vm (regV vm x) then (setV x (of_nat i) vm, False)
            else keyScan x (Suc i) vm)
      else (vm, True))"
  by pat_completeness auto
termination
  by (relation "measure (\<lambda>(x, i, vm). 16 - i)") auto

declare keyScan.simps [simp del]

partial_function (option) waitKey :: "nat \<Rightarrow> C8VM \<Rightarrow> C8VM option" where
  "waitKey x vm =
     (case keyScan x 0 vm of (vm', loop) \<Rightarrow> if loop then waitKey x vm' else Some vm')"

definition storeBCD :: "nat \<Rightarrow> C8VM \<Rightarrow> C8VM option" where
  "storeBCD x vm =
     (let a0 = unat (regI vm); a1 = unat (regI vm + 1); a2 = unat (regI vm + 2) in
      if a0 < totalMemory \<and> a1 < totalMemory \<and> a2 < totalMemory
      then Some (vm\<lparr>memory := (memory vm)
                    (a0 := (regV vm x div 100) mod 10,
                     a1 := (regV vm x div 10) mod 10,
                     a2 := regV vm x mod 10)\<rparr>)
      else None)"

function storeRegs :: "nat \<Rightarrow> nat \<Rightarrow> C8VM \<Rightarrow> C8VM option" where
  "storeRegs x i vm =
     (if i \<le> x
      then (let a = unat (regI vm + of_nat i) in
            if a < totalMemory
            then storeRegs x (Suc i) (vm\<lparr>memory := (memory vm)(a := regV vm i)\<rparr>)
            else None)
      else Some vm)"
  by pat_completeness auto
termination
  by (relation "measure (\<lambda>(x, i, vm). Suc x - i)") auto

declare storeRegs.simps [simp del]

function loadRegs :: "nat \<Rightarrow> nat \<Rightarrow> C8VM \<Rightarrow> C8VM option" where
  "loadRegs x i vm =
     (if i \<le> x
      then (let a = unat (regI vm + of_nat i) in
            if a < totalMemory
            then loadRegs x (Suc i) (setV i (memory vm a) vm)
            else None)
      else Some vm)"
  by pat_completeness auto
termination
  by (relation "measure (\<lambda>(x, i, vm). Suc x - i)") auto

declare loadRegs.simps [simp del]

definition okOrPanic :: "C8VM option \<Rightarrow> result" where
  "okOrPanic r = (case r of None \<Rightarrow> Panic | Some vm \<Rightarrow> Ok (advance vm))"

definition case_0xF000 :: "nat \<Rightarrow> u8 \<Rightarrow> C8VM \<Rightarrow> result option" where
  "case_0xF000 x kk vm =
     (if kk = 0x07 then Some (Ok (advance (setV x (delayTimer vm) vm)))
      else if kk = 0x0A then map_option (\<lambda>vm'. Ok (advance vm')) (waitKey x vm)
      else if kk = 0x15 then Some (Ok (advance (vm\<lparr>delayTimer := regV vm x\<rparr>)))
      else if kk = 0x18 then Some (Ok (advance (vm\<lparr>soundTimer := regV vm x\<rparr>)))
      else if kk = 0x1E then Some (Ok (advance (vm\<lparr>regI := regI vm + ucast (regV vm x)\<rparr>)))
      else if kk = 0x29 then Some (Ok (advance (vm\<lparr>regI := ucast (5 * regV vm x)\<rparr>)))
      else if kk = 0x33 then Some (okOrPanic (storeBCD x vm))
      else if kk = 0x55 then Some (okOrPanic (storeRegs x 0 vm))
      else if kk = 0x65 then Some (okOrPanic (loadRegs x 0 vm))
      else Some (Err (unknownOpcode vm) vm))"

definition case_0xD000 :: "nat \<Rightarrow> nat \<Rightarrow> u8 \<Rightarrow> C8VM \<Rightarrow> result" where
  "case_0xD000 x y n vm =
     (case initSprite (regV vm x) (regV vm y) n vm of
        None \<Rightarrow> Panic
      | Some vm' \<Rightarrow> Ok ((advance vm')\<lparr>drawFlag := True\<rparr>))"

text \<open>
  \<open>ReadNextInstruction\<close>. The byte drawn by \<open>rand.Intn(256)\<close> is the parameter
  \<open>rnd\<close>. The fields \<open>x\<close> and \<open>y\<close> are below 16 and index \<open>regV\<close> in range.
\<close>

definition ReadNextInstruction :: "u8 \<Rightarrow> C8VM \<Rightarrow> result option" where
  "ReadNextInstruction rnd vm0 =
     (case fetch vm0 of
        None \<Rightarrow> Some Panic
      | Some opc \<Rightarrow>
         (let vm = vm0\<lparr>opcode := opc\<rparr>;
              x = opX opc; y = opY opc; n = opN opc; kk = opKK opc; nnn = opNNN opc;
              sel = opc AND 0xF000
          in if sel = 0x0000 then Some (case_0x0000 kk vm)
             else if sel = 0x1000 then Some (Ok (vm\<lparr>pc := nnn\<rparr>))
             else if sel = 0x2000 then Some (case_0x2000 nnn vm)
             else if sel = 0x3000 then
               Some (Ok (advance (if regV vm x = kk then advance vm else vm)))
             else if sel = 0x4000 then
               Some (Ok (advance (if regV vm x \<noteq> kk then advance vm else vm)))
             else if sel = 0x5000 then
               (if n = 0x0
                then Some (Ok (advance (if regV vm x = regV vm y then advance vm else vm)))
                else Some (Err (unknownOpcode vm) vm))
             else if sel = 0x6000 then Some (Ok (advance (setV x kk vm)))
             else if sel = 0x7000 then Some (Ok (advance (setV x (regV vm x + kk) vm)))
             else if sel = 0x8000 then Some (case_0x8000 x y n vm)
             else if sel = 0x9000 then
               (if n = 0x0
                then Some (Ok (advance (if regV vm x \<noteq> regV vm y then advance vm else vm)))
                else Some (Err (unknownOpcode vm) vm))
             else if sel = 0xA000 then Some (Ok (advance (vm\<lparr>regI := nnn\<rparr>)))
             else if sel = 0xB000 then Some (Ok (vm\<lparr>pc := nnn + ucast (regV vm 0)\<rparr>))
             else if sel = 0xC000 then Some (Ok (advance (setV x (rnd AND kk) vm)))
             else if sel = 0xD000 then Some (case_0xD000 x y n vm)
             else if sel = 0xE000 then Some (case_0xE000 x kk vm)
             else if sel = 0xF000 then case_0xF000 x kk vm
             else Some (Err (unknownOpcode vm) vm)))"

subsection \<open>Running a program\<close>

text \<open>
  The driver's loop calls \<open>ReadNextInstruction\<close> once per turn and stops at the first
  error. \<open>cycles\<close> is that loop over the turns in which no key event arrives: one
  random byte per turn. The timers and the display flags, which the driver also
  handles, are not read by any instruction modelled below except \<open>Fx07\<close>.
\<close>

fun cycles :: "u8 list \<Rightarrow> C8VM \<Rightarrow> result option" where
  "cycles [] vm = Some (Ok vm)"
| "cycles (r # rs) vm =
     (case ReadNextInstruction r vm of
        Some (Ok vm') \<Rightarrow> cycles rs vm'
      | other \<Rightarrow> other)"

text \<open>The machine as \<open>main\<close> starts it: \<open>NewC8VM\<close>, then \<open>LoadProgram\<close>.\<close>

definition boot :: "u8 list \<Rightarrow> C8VM" where
  "boot data = (case LoadProgram data (NewC8VM 0) of Inr vm \<Rightarrow> vm | Inl e \<Rightarrow> NewC8VM 0)"

text \<open>Reading a field of the state a run ends in, when it ends without error.\<close>

definition final :: "(C8VM \<Rightarrow> 'a) \<Rightarrow> result option \<Rightarrow> 'a option" where
  "final f r = (case r of Some (Ok vm) \<Rightarrow> Some (f vm) | _ \<Rightarrow> None)"

definition reg :: "nat \<Rightarrow> C8VM \<Rightarrow> u8" where
  "reg i vm = regV vm i"

text \<open>The state a call leaves, when it returns.\<close>

fun left :: "result \<Rightarrow> C8VM option" where
  "left (Ok vm) = Some vm"
| "left (Err e vm) = Some vm"
| "left Panic = None"

text \<open>
  The opcodes for which the decoder reaches one of its \<open>default\<close> branches, spelled
  out family by family.
\<close>

definition noPattern :: "u16 \<Rightarrow> bool" where
  "noPattern opc =
     (let sel = opc AND 0xF000; n = opN opc; kk = opKK opc in
      (sel = 0x0000 \<and> kk \<noteq> 0xE0 \<and> kk \<noteq> 0xEE) \<or>
      (sel = 0x5000 \<and> n \<noteq> 0x0) \<or>
      (sel = 0x8000 \<and> n \<notin> {0x0, 0x1, 0x2, 0x3, 0x4, 0x5, 0x6, 0x7, 0xE}) \<or>
      (sel = 0x9000 \<and> n \<noteq> 0x0) \<or>
      (sel = 0xE000 \<and> kk \<noteq> 0x9E \<and> kk \<noteq> 0xA1) \<or>
      (sel = 0xF000 \<and> kk \<notin> {0x07, 0x0A, 0x15, 0x18, 0x1E, 0x29, 0x33, 0x55, 0x65}))"

section \<open>Evaluation and word arithmetic\<close>

lemmas ev = ReadNextInstruction_def fetch_def boot_def LoadProgram_def NewC8VM_def
  maxProgramSize_def totalMemory_def pcStartAddr_def opX_def opY_def opN_def opKK_def opNNN_def
  advance_def setV_def setVF_def final_def reg_def case_0xF000_def case_0x8000_def case_0x0000_def
  case_0x2000_def case_0xD000_def case_0xE000_def unknownOpcode_def

lemmas boot_ev = fetch_def boot_def LoadProgram_def NewC8VM_def maxProgramSize_def
  totalMemory_def pcStartAddr_def

lemma u8_lt: "unat (a::u8) < 256"
  using unsigned_less [of a, where 'a=nat] by simp

lemma widen_u8: "unat (ucast (a::u8) :: u16) = unat a"
  using u8_lt [of a] by (simp add: unsigned_ucast_eq take_bit_eq_mod)

lemma widen_sum: "unat ((ucast (a::u8) :: u16) + ucast (b::u8)) = unat a + unat b"
  using u8_lt [of a] u8_lt [of b]
  by (simp add: unat_word_ariths widen_u8)

lemma and_FFFF: "(w::u16) AND 0xFFFF = w"
proof -
  have "(0xFFFF :: u16) = - 1" by simp
  then show ?thesis by (simp only: word_and_max)
qed

lemma narrow_u16: "unat (ucast (w::u16) :: u8) = unat w mod 256"
  by (simp add: unsigned_ucast_eq take_bit_eq_mod)

lemma ADD_carry: "(255 < (ucast (a::u8) :: u16) + ucast (b::u8)) \<longleftrightarrow> 255 < unat a + unat b"
  by (simp add: word_less_nat_alt widen_sum)

lemma bit_one_shift: "bit (2 ^ k :: u16) j \<longleftrightarrow> j = k \<and> k < 16"
  by (auto simp add: bit_exp_iff)

lemma isset_bit:
  assumes k: "unat k < 16"
  shows "issetKeymask vm k \<longleftrightarrow> bit (key vm) (unat k)"
proof
  assume "issetKeymask vm k"
  then have "key vm AND 2 ^ unat k = 2 ^ unat k"
    by (simp add: issetKeymask_def Let_def)
  then have "bit (key vm AND 2 ^ unat k) (unat k) = bit (2 ^ unat k :: u16) (unat k)"
    by simp
  then show "bit (key vm) (unat k)"
    using k by (simp add: bit_and_iff bit_one_shift)
next
  assume b: "bit (key vm) (unat k)"
  have "key vm AND 2 ^ unat k = 2 ^ unat k"
    by (rule bit_word_eqI) (use b k in \<open>auto simp add: bit_and_iff bit_one_shift\<close>)
  then show "issetKeymask vm k"
    by (simp add: issetKeymask_def Let_def)
qed

lemma rowLoop_done: "\<not> byteIdx < unat n \<Longrightarrow> rowLoop x y n byteIdx vm = Some vm"
  by (simp add: rowLoop.simps)

section \<open>The key mask: \<open>UnsetKeymask\<close>\<close>

text \<open>
  Claim C10. \<open>UnsetKeymask\<close> toggles bit \<open>k\<close> of the key mask: for a key code
  \<open>k\<close> in 0x0 to 0xF whose bit is 0, the call sets the bit (the mask becomes the old
  mask with bit \<open>k\<close> or-ed in, and \<open>issetKeymask\<close> then holds for \<open>k\<close>). A second
  call gives the first state back, so the operation is not idempotent.
\<close>

theorem UnsetKeymask_toggles:
  assumes "unat k < 16" and "\<not> bit (key vm) (unat k)"
  shows "bit (key (UnsetKeymask k vm)) (unat k) \<and>
         issetKeymask (UnsetKeymask k vm) k \<and>
         key (UnsetKeymask k vm) = key vm OR push_bit (unat k) 1 \<and>
         UnsetKeymask k (UnsetKeymask k vm) = vm \<and>
         UnsetKeymask k (UnsetKeymask k vm) \<noteq> UnsetKeymask k vm"
proof -
  have b: "bit (key (UnsetKeymask k vm)) (unat k)"
    using assms by (simp add: UnsetKeymask_def bit_xor_iff bit_one_shift)
  have i: "issetKeymask (UnsetKeymask k vm) k"
    using assms b by (simp add: isset_bit)
  have o: "key (UnsetKeymask k vm) = key vm OR push_bit (unat k) 1"
    unfolding UnsetKeymask_def
    by (simp, rule bit_word_eqI)
      (use assms in \<open>auto simp add: bit_xor_iff bit_or_iff bit_one_shift\<close>)
  have r: "UnsetKeymask k (UnsetKeymask k vm) = vm"
    by (simp add: UnsetKeymask_def xor.assoc)
  have "key (UnsetKeymask k vm) \<noteq> key vm"
    using assms b by auto
  then have n: "UnsetKeymask k (UnsetKeymask k vm) \<noteq> UnsetKeymask k vm"
    using r by auto
  show ?thesis using b i o r n by simp
qed

theorem UnsetKeymask_toggles_witness:
  "unat (3::u8) < 16 \<and> \<not> bit (key (NewC8VM 0)) (unat (3::u8)) \<and>
   key (UnsetKeymask 3 (NewC8VM 0)) = 8 \<and>
   issetKeymask (UnsetKeymask 3 (NewC8VM 0)) 3 \<and>
   UnsetKeymask 3 (UnsetKeymask 3 (NewC8VM 0)) \<noteq> UnsetKeymask 3 (NewC8VM 0)"
  using UnsetKeymask_toggles [of 3 "NewC8VM 0"]
  by (simp add: NewC8VM_def UnsetKeymask_def)

section \<open>Fetch\<close>



section \<open>Arithmetic: \<open>8xy4\<close> and \<open>Fx29\<close>\<close>

text \<open>
  Claim C4, amended. \<open>8xy4\<close> completes and leaves in \<open>Vx\<close> the sum of the old \<open>Vx\<close>
  and \<open>Vy\<close> modulo 256, for every \<open>x\<close> and \<open>y\<close>. The flag is written before the
  result, so \<open>VF\<close> holds the carry (1 if the sum exceeds 255, else 0) when \<open>x\<close> is not
  0xF; when \<open>x\<close> is 0xF the register holds the sum, as the first part says.
\<close>

theorem ADD_Vx_Vy:
  assumes "fetch vm = Some opc" and "opc AND 0xF000 = 0x8000" and "opN opc = 0x4"
  shows "\<exists>vm'. ReadNextInstruction rnd vm = Some (Ok vm') \<and>
           unat (regV vm' (opX opc)) =
             (unat (regV vm (opX opc)) + unat (regV vm (opY opc))) mod 256 \<and>
           (opX opc \<noteq> 0xF \<longrightarrow>
              regV vm' 0xF =
                (if 255 < unat (regV vm (opX opc)) + unat (regV vm (opY opc)) then 1 else 0))"
  using assms
  by (simp add: ReadNextInstruction_def case_0x8000_def Let_def advance_def setV_def setVF_def
      and_FFFF narrow_u16 widen_sum ADD_carry)

theorem ADD_Vx_Vy_witness:
  "fetch ((boot [0x80, 0x14])\<lparr>regV := (\<lambda>_. 0)(0 := 0xFF, 1 := 0x02)\<rparr>) = Some 0x8014 \<and>
   (\<exists>vm'. ReadNextInstruction 0 ((boot [0x80, 0x14])\<lparr>regV := (\<lambda>_. 0)(0 := 0xFF, 1 := 0x02)\<rparr>)
            = Some (Ok vm') \<and> unat (regV vm' 0) = 1 \<and> regV vm' 0xF = 1)"
  using ADD_Vx_Vy [of "(boot [0x80, 0x14])\<lparr>regV := (\<lambda>_. 0)(0 := 0xFF, 1 := 0x02)\<rparr>" "0x8014" 0]
  by (simp add: fetch_def boot_def LoadProgram_def NewC8VM_def maxProgramSize_def totalMemory_def
      pcStartAddr_def opX_def opY_def opN_def)

text \<open>
  The claim as stated fails for \<open>x = 0xF\<close>: the program \<open>6F05 6003 8F04\<close> adds
  \<open>V0 = 3\<close> to \<open>VF = 5\<close>; the sum does not exceed 255, and \<open>VF\<close> ends as 8, not 0.
\<close>

theorem ADD_VF_counterexample:
  "final (reg 0xF) (cycles [0, 0, 0] (boot [0x6F, 0x05, 0x60, 0x03, 0x8F, 0x04])) = Some 8 \<and>
   final (reg 0xF) (cycles [0, 0, 0] (boot [0x6F, 0x05, 0x60, 0x03, 0x8F, 0x04])) \<noteq> Some 0"
  by (simp add: ev)

text \<open>
  \<open>Fx29\<close> multiplies in \<open>uint8\<close> and converts the product afterwards.
\<close>

lemma LD_F_Vx:
  assumes "fetch vm = Some opc" and "opc AND 0xF000 = 0xF000" and "opKK opc = 0x29"
  shows "ReadNextInstruction rnd vm =
           Some (Ok (advance (vm\<lparr>opcode := opc, regI := ucast (5 * regV vm (opX opc))\<rparr>)))"
  using assms by (simp add: ReadNextInstruction_def case_0xF000_def)

text \<open>
  Claim C9, on the code. The program \<open>6040 F029\<close> sets \<open>V0 = 0x40\<close> and executes
  \<open>Fx29\<close>: the register \<open>I\<close> ends as 64, where the claim's exact product is 320.
\<close>

theorem LD_F_Vx_wraps:
  "final regI (cycles [0, 0] (boot [0x60, 0x40, 0xF0, 0x29])) = Some 64"
  by (simp add: ev)

section \<open>Unknown opcodes\<close>

text \<open>
  \<open>Dxy0\<close>: the error \<open>initSprite\<close> builds for a height of 0 is dropped, and the
  instruction completes as a draw of no rows.
\<close>

lemma DRW_height_zero:
  assumes "fetch vm = Some opc" and "opc AND 0xF000 = 0xD000" and "opN opc = 0"
  shows "ReadNextInstruction rnd vm =
           Some (Ok (vm\<lparr>opcode := opc, regV := (regV vm)(0xF := 0), pc := pc vm + 2,
                        drawFlag := True\<rparr>))"
  using assms
  by (simp add: ReadNextInstruction_def case_0xD000_def initSprite_def rowLoop_done advance_def)

text \<open>
  Claim C8, on the code. The program \<open>D000\<close> returns no error: the call returns
  \<open>nil\<close> with \<open>pc\<close> advanced to 0x202, the draw flag set and \<open>VF\<close> zero.
\<close>

theorem DRW_height_zero_completes:
  "final pc (ReadNextInstruction 0 (boot [0xD0, 0x00])) = Some 0x202 \<and>
   final drawFlag (ReadNextInstruction 0 (boot [0xD0, 0x00])) = Some True \<and>
   final (reg 0xF) (ReadNextInstruction 0 (boot [0xD0, 0x00])) = Some 0"
  by (simp add: ev initSprite_def rowLoop_done)

text \<open>
  Claim C2, amended. For every state whose fetch succeeds and every opcode that the
  decoder sends to a \<open>default\<close> branch, the instruction cycle returns the error
  \<open>UnknownOpcode\<close> of that opcode, and the state it leaves is the state before the
  call with the field \<open>opcode\<close> set to the fetched opcode: no other field changes.
\<close>

theorem unknown_opcode_state:
  assumes f: "fetch vm = Some opc" and np: "noPattern opc"
  shows "ReadNextInstruction rnd vm = Some (Err (UnknownOpcode opc) (vm\<lparr>opcode := opc\<rparr>))"
proof -
  consider
      (c0) "opc AND 0xF000 = 0x0000" "opKK opc \<noteq> 0xE0" "opKK opc \<noteq> 0xEE"
    | (c5) "opc AND 0xF000 = 0x5000" "opN opc \<noteq> 0x0"
    | (c8) "opc AND 0xF000 = 0x8000"
           "opN opc \<notin> {0x0, 0x1, 0x2, 0x3, 0x4, 0x5, 0x6, 0x7, 0xE}"
    | (c9) "opc AND 0xF000 = 0x9000" "opN opc \<noteq> 0x0"
    | (cE) "opc AND 0xF000 = 0xE000" "opKK opc \<noteq> 0x9E" "opKK opc \<noteq> 0xA1"
    | (cF) "opc AND 0xF000 = 0xF000"
           "opKK opc \<notin> {0x07, 0x0A, 0x15, 0x18, 0x1E, 0x29, 0x33, 0x55, 0x65}"
    using np unfolding noPattern_def Let_def by blast
  then show ?thesis
  proof cases
    case c0
    then show ?thesis using f
      by (simp add: ReadNextInstruction_def case_0x0000_def unknownOpcode_def)
  next
    case c5
    then show ?thesis using f
      by (simp add: ReadNextInstruction_def unknownOpcode_def)
  next
    case c8
    then show ?thesis using f
      by (simp add: ReadNextInstruction_def case_0x8000_def unknownOpcode_def)
  next
    case c9
    then show ?thesis using f
      by (simp add: ReadNextInstruction_def unknownOpcode_def)
  next
    case cE
    then show ?thesis using f
      by (simp add: ReadNextInstruction_def case_0xE000_def unknownOpcode_def)
  next
    case cF
    then show ?thesis using f
      by (simp add: ReadNextInstruction_def case_0xF000_def unknownOpcode_def)
  qed
qed

theorem unknown_opcode_state_witness:
  "fetch (boot [0x50, 0x01]) = Some 0x5001 \<and> noPattern 0x5001 \<and>
   ReadNextInstruction 0 (boot [0x50, 0x01]) =
     Some (Err (UnknownOpcode 0x5001) ((boot [0x50, 0x01])\<lparr>opcode := 0x5001\<rparr>))"
  using unknown_opcode_state [of "boot [0x50, 0x01]" "0x5001" 0]
  by (simp add: fetch_def boot_def LoadProgram_def NewC8VM_def maxProgramSize_def totalMemory_def
      pcStartAddr_def noPattern_def opN_def opKK_def)

text \<open>
  The claim as stated fails on its own example: after the program \<open>5001\<close> is refused,
  the field \<open>opcode\<close> holds 0x5001, and it held 0 before.
\<close>

theorem unknown_opcode_counterexample:
  "ReadNextInstruction 0 (boot [0x50, 0x01]) =
     Some (Err (UnknownOpcode 0x5001) ((boot [0x50, 0x01])\<lparr>opcode := 0x5001\<rparr>)) \<and>
   opcode ((boot [0x50, 0x01])\<lparr>opcode := 0x5001\<rparr>) \<noteq> opcode (boot [0x50, 0x01])"
  by (simp add: ev)

section \<open>Waiting for a key: \<open>Fx0A\<close>\<close>

text \<open>
  The inner loop tests the key whose code is the old content of \<open>Vx\<close>, whatever
  \<open>i\<close> is. If that key is down, the first pass stores \<open>i = 0\<close>; if it is up, no
  pass changes anything and the outer loop goes round for ever.
\<close>

lemma keyScan_hit:
  "i \<le> 0xF \<Longrightarrow> issetKeymask vm (regV vm x) \<Longrightarrow> keyScan x i vm = (setV x (of_nat i) vm, False)"
  by (simp add: keyScan.simps)

lemma keyScan_miss:
  "\<not> issetKeymask vm (regV vm x) \<Longrightarrow> keyScan x i vm = (vm, True)"
  by (induction x i vm rule: keyScan.induct) (simp add: keyScan.simps)

lemma waitKey_hit:
  "issetKeymask vm (regV vm x) \<Longrightarrow> waitKey x vm = Some (setV x 0 vm)"
  by (subst waitKey.simps) (simp add: keyScan_hit)

lemma waitKey_Some_isset:
  assumes "waitKey x vm = Some vm'"
  shows "issetKeymask vm (regV vm x)"
proof -
  have "(case (x, vm) of (x, vm) \<Rightarrow> \<lambda>vm'. issetKeymask vm (regV vm x)) vm'"
  proof (rule waitKey.raw_induct [where xa = "(x, vm)" and y = vm'])
    fix w :: "nat \<Rightarrow> C8VM \<Rightarrow> C8VM option" and x vm vm'
    assume IH: "\<And>x vm vm'. w x vm = Some vm' \<Longrightarrow> issetKeymask vm (regV vm x)"
      and b: "(case keyScan x 0 vm of (vm', loop) \<Rightarrow> if loop then w x vm' else Some vm')
                = Some vm'"
    show "issetKeymask vm (regV vm x)"
    proof (rule ccontr)
      assume n: "\<not> issetKeymask vm (regV vm x)"
      then have "w x vm = Some vm'"
        using b by (simp add: keyScan_miss)
      then show False using IH n by blast
    qed
  next
    show "(case (x, vm) of (x, xa) \<Rightarrow> waitKey x xa) = Some vm'"
      using assms by simp
  qed
  then show ?thesis by simp
qed

lemma waitKey_miss:
  "\<not> issetKeymask vm (regV vm x) \<Longrightarrow> waitKey x vm = None"
  using waitKey_Some_isset [of x vm] by (cases "waitKey x vm") auto

lemma LD_Vx_K:
  assumes "fetch vm = Some opc" and "opc AND 0xF000 = 0xF000" and "opKK opc = 0x0A"
  shows "ReadNextInstruction rnd vm =
           (if issetKeymask vm (regV vm (opX opc))
            then Some (Ok (advance (setV (opX opc) 0 (vm\<lparr>opcode := opc\<rparr>))))
            else None)"
  using assms
  by (simp add: ReadNextInstruction_def case_0xF000_def waitKey_hit waitKey_miss issetKeymask_def)

text \<open>
  Claim C1, on the code. With key 1 held down and no other, the program \<open>6001 F00A\<close>
  ends with 0 in \<open>V0\<close>: the code of a key that is not down (the mask is still 0x0002).
\<close>

theorem LD_Vx_K_stores_zero:
  "final (reg 0) (cycles [0, 0] (SetKeymask 1 (boot [0x60, 0x01, 0xF0, 0x0A]))) = Some 0 \<and>
   final key (cycles [0, 0] (SetKeymask 1 (boot [0x60, 0x01, 0xF0, 0x0A]))) = Some 0x0002"
  by (simp add: ev SetKeymask_def waitKey_hit issetKeymask_def)

text \<open>
  With the same key held and \<open>V0 = 0\<close>, the instruction never returns, though a
  key is down.
\<close>

lemma LD_Vx_K_never_returns:
  "ReadNextInstruction 0 (SetKeymask 1 (boot [0xF0, 0x0A])) = None"
  by (simp add: ev SetKeymask_def waitKey_miss issetKeymask_def)

section \<open>The stack pointer\<close>

text \<open>No instruction but the call and the return writes the stack pointer.\<close>

lemma sp_plot: "sp (plot x y sb r b vm) = sp vm"
  by (simp add: plot_def Let_def)

lemma sp_bitLoop: "sp (bitLoop x y sb r b vm) = sp vm"
  by (induction x y sb r b vm rule: bitLoop.induct)
     (subst bitLoop.simps, simp add: sp_plot)

lemma sp_rowLoop: "rowLoop x y n r vm = Some vm' \<Longrightarrow> sp vm' = sp vm"
proof (induction x y n r vm rule: rowLoop.induct)
  case (1 x y n byteIdx vm)
  show ?case
  proof (cases "byteIdx < unat n \<and> unat (regI vm + of_nat byteIdx) < totalMemory")
    case True
    then have "rowLoop x y n (Suc byteIdx)
                 (bitLoop x y (memory vm (unat (regI vm + of_nat byteIdx))) byteIdx 0 vm) = Some vm'"
      using 1(2) by (subst (asm) rowLoop.simps) simp
    then show ?thesis using 1(1) True by (simp add: sp_bitLoop)
  next
    case False
    then show ?thesis using 1(2) by (subst (asm) rowLoop.simps) (auto simp add: Let_def split: if_splits)
  qed
qed

lemma sp_initSprite: "initSprite x y n vm = Some vm' \<Longrightarrow> sp vm' = sp vm"
  using sp_rowLoop [of x y n 0 "vm\<lparr>regV := (regV vm)(0xF := 0)\<rparr>" vm']
  by (simp add: initSprite_def)

lemma sp_waitKey: "waitKey x vm = Some vm' \<Longrightarrow> sp vm' = sp vm"
  using waitKey_Some_isset [of x vm vm'] by (auto simp add: waitKey_hit setV_def)

lemma sp_storeRegs: "storeRegs x i vm = Some vm' \<Longrightarrow> sp vm' = sp vm"
proof (induction x i vm rule: storeRegs.induct)
  case (1 x i vm)
  show ?case
  proof (cases "i \<le> x \<and> unat (regI vm + of_nat i) < totalMemory")
    case True
    then have "storeRegs x (Suc i)
                 (vm\<lparr>memory := (memory vm)(unat (regI vm + of_nat i) := regV vm i)\<rparr>) = Some vm'"
      using 1(2) by (subst (asm) storeRegs.simps) simp
    then show ?thesis using 1(1) True by simp
  next
    case False
    then show ?thesis using 1(2) by (subst (asm) storeRegs.simps) (auto simp add: Let_def split: if_splits)
  qed
qed

lemma sp_loadRegs: "loadRegs x i vm = Some vm' \<Longrightarrow> sp vm' = sp vm"
proof (induction x i vm rule: loadRegs.induct)
  case (1 x i vm)
  show ?case
  proof (cases "i \<le> x \<and> unat (regI vm + of_nat i) < totalMemory")
    case True
    then have "loadRegs x (Suc i) (setV i (memory vm (unat (regI vm + of_nat i))) vm) = Some vm'"
      using 1(2) by (subst (asm) loadRegs.simps) simp
    then show ?thesis using 1(1) True by (simp add: setV_def)
  next
    case False
    then show ?thesis using 1(2) by (subst (asm) loadRegs.simps) (auto simp add: Let_def split: if_splits)
  qed
qed

lemma sp_storeBCD: "storeBCD x vm = Some vm' \<Longrightarrow> sp vm' = sp vm"
  by (auto simp add: storeBCD_def Let_def split: if_splits)

lemma sp_okOrPanic:
  assumes "\<And>vm'. r = Some vm' \<Longrightarrow> sp vm' = sp vm" and "left (okOrPanic r) = Some vm'"
  shows "sp vm' = sp vm"
  using assms by (cases r) (auto simp add: okOrPanic_def advance_def)

lemma sp_case_0xF000:
  assumes "case_0xF000 x kk vm = Some r" and "left r = Some vm'"
  shows "sp vm' = sp vm"
proof -
  consider (k33) "kk = 0x33" | (k55) "kk = 0x55" | (k65) "kk = 0x65" | (k0A) "kk = 0x0A"
    | (other) "kk \<noteq> 0x33" "kk \<noteq> 0x55" "kk \<noteq> 0x65" "kk \<noteq> 0x0A"
    by blast
  then show ?thesis
  proof cases
    case k33
    then have "left (okOrPanic (storeBCD x vm)) = Some vm'"
      using assms by (auto simp add: case_0xF000_def)
    then show ?thesis using sp_storeBCD sp_okOrPanic by blast
  next
    case k55
    then have "left (okOrPanic (storeRegs x 0 vm)) = Some vm'"
      using assms by (auto simp add: case_0xF000_def)
    then show ?thesis using sp_storeRegs sp_okOrPanic by blast
  next
    case k65
    then have "left (okOrPanic (loadRegs x 0 vm)) = Some vm'"
      using assms by (auto simp add: case_0xF000_def)
    then show ?thesis using sp_loadRegs sp_okOrPanic by blast
  next
    case k0A
    then obtain w where "waitKey x vm = Some w" "vm' = advance w"
      using assms by (auto simp add: case_0xF000_def)
    then show ?thesis using sp_waitKey by (auto simp add: advance_def)
  next
    case other
    then show ?thesis using assms
      by (auto simp add: case_0xF000_def advance_def setV_def split: if_splits)
  qed
qed

lemma sp_case_0x8000: "left (case_0x8000 x y n vm) = Some vm' \<Longrightarrow> sp vm' = sp vm"
  by (auto simp add: case_0x8000_def Let_def advance_def setV_def setVF_def split: if_splits)

lemma sp_case_0xE000: "left (case_0xE000 x kk vm) = Some vm' \<Longrightarrow> sp vm' = sp vm"
  by (auto simp add: case_0xE000_def advance_def split: if_splits)

lemma sp_case_0xD000: "left (case_0xD000 x y n vm) = Some vm' \<Longrightarrow> sp vm' = sp vm"
  using sp_initSprite
  by (auto simp add: case_0xD000_def advance_def split: option.splits)

lemma sp_case_0x0000:
  "kk \<noteq> 0xEE \<Longrightarrow> left (case_0x0000 kk vm) = Some vm' \<Longrightarrow> sp vm' = sp vm"
  by (auto simp add: case_0x0000_def advance_def split: if_splits)

lemma sp_other:
  assumes f: "fetch vm = Some opc"
    and nc: "opc AND 0xF000 \<noteq> 0x2000"
    and nr: "\<not> (opc AND 0xF000 = 0x0000 \<and> opKK opc = 0xEE)"
    and r: "ReadNextInstruction rnd vm = Some r" and l: "left r = Some vm'"
  shows "sp vm' = sp vm"
proof -
  let ?vm = "vm\<lparr>opcode := opc\<rparr>"
  consider (c0) "opc AND 0xF000 = 0x0000" | (c8) "opc AND 0xF000 = 0x8000"
    | (cD) "opc AND 0xF000 = 0xD000" | (cE) "opc AND 0xF000 = 0xE000"
    | (cF) "opc AND 0xF000 = 0xF000"
    | (other) "opc AND 0xF000 \<noteq> 0x0000" "opc AND 0xF000 \<noteq> 0x8000"
        "opc AND 0xF000 \<noteq> 0xD000" "opc AND 0xF000 \<noteq> 0xE000" "opc AND 0xF000 \<noteq> 0xF000"
    by blast
  then show ?thesis
  proof cases
    case c0
    then have "r = case_0x0000 (opKK opc) ?vm"
      using f r by (simp add: ReadNextInstruction_def)
    then show ?thesis using sp_case_0x0000 [of "opKK opc" ?vm vm'] nr c0 l by simp
  next
    case c8
    then have "r = case_0x8000 (opX opc) (opY opc) (opN opc) ?vm"
      using f r by (simp add: ReadNextInstruction_def)
    then show ?thesis using sp_case_0x8000 [of "opX opc" "opY opc" "opN opc" ?vm vm'] l by simp
  next
    case cD
    then have "r = case_0xD000 (opX opc) (opY opc) (opN opc) ?vm"
      using f r by (simp add: ReadNextInstruction_def)
    then show ?thesis using sp_case_0xD000 [of "opX opc" "opY opc" "opN opc" ?vm vm'] l by simp
  next
    case cE
    then have "r = case_0xE000 (opX opc) (opKK opc) ?vm"
      using f r by (simp add: ReadNextInstruction_def)
    then show ?thesis using sp_case_0xE000 [of "opX opc" "opKK opc" ?vm vm'] l by simp
  next
    case cF
    then have "case_0xF000 (opX opc) (opKK opc) ?vm = Some r"
      using f r by (simp add: ReadNextInstruction_def)
    then show ?thesis using sp_case_0xF000 [of "opX opc" "opKK opc" ?vm r vm'] l by simp
  next
    case other
    then show ?thesis using f r l nc
      by (auto simp add: ReadNextInstruction_def Let_def advance_def setV_def
          split: if_splits)
  qed
qed

lemma CALL_step:
  assumes f: "fetch vm = Some opc" and c: "opc AND 0xF000 = 0x2000"
  shows "ReadNextInstruction rnd vm =
           (if unat (sp vm) < 16
            then Some (Ok (vm\<lparr>opcode := opc, stack := (stack vm)(unat (sp vm) := pc vm),
                               sp := sp vm + 1, pc := opNNN opc\<rparr>))
            else Some Panic)"
  using assms by (simp add: ReadNextInstruction_def case_0x2000_def)

lemma RET_step:
  assumes f: "fetch vm = Some opc" and c: "opc AND 0xF000 = 0x0000" and k: "opKK opc = 0xEE"
  shows "ReadNextInstruction rnd vm =
           (if unat (sp vm - 1) < 16
            then Some (Ok (vm\<lparr>opcode := opc, sp := sp vm - 1,
                               pc := stack vm (unat (sp vm - 1)) + 2\<rparr>))
            else Some Panic)"
  using assms by (simp add: ReadNextInstruction_def case_0x0000_def)

lemma unat_sp_inc: "unat (s::u8) < 16 \<Longrightarrow> unat (s + 1) = unat s + 1"
  by (simp add: unat_word_ariths)

lemma unat_sp_dec: "0 < unat (s::u8) \<Longrightarrow> unat (s - 1) = unat s - 1"
  by (metis unat_gt_0 unat_minus_one)

lemma unat_sp_dec0: "unat (s::u8) = 0 \<Longrightarrow> unat (s - 1) = 255"
  by (simp add: unat_eq_0 unsigned_minus_1_eq_mask mask_eq_exp_minus_1)

text \<open>
  Claim C3, amended. From a state with the stack pointer in [0,16]: \<open>2nnn\<close> returns
  with the pointer one higher when it is at most 15 (so 16 after a call at 15) and
  panics on \<open>stack[sp]\<close> when it is 16; \<open>00EE\<close> returns with the pointer one lower
  when it is at least 1 and panics when it is 0; every other instruction that returns,
  with an error or without, leaves the pointer as it is. So a call that returns leaves
  the pointer in [0,16], and no entry outside the stack is accessed.
\<close>

theorem stack_pointer_step:
  assumes f: "fetch vm = Some opc" and b: "unat (sp vm) \<le> 16"
  shows "(opc AND 0xF000 = 0x2000 \<longrightarrow>
            (if unat (sp vm) < 16
             then \<exists>vm'. ReadNextInstruction rnd vm = Some (Ok vm') \<and>
                         unat (sp vm') = unat (sp vm) + 1
             else ReadNextInstruction rnd vm = Some Panic)) \<and>
         (opc AND 0xF000 = 0x0000 \<and> opKK opc = 0xEE \<longrightarrow>
            (if 0 < unat (sp vm)
             then \<exists>vm'. ReadNextInstruction rnd vm = Some (Ok vm') \<and>
                         unat (sp vm') = unat (sp vm) - 1
             else ReadNextInstruction rnd vm = Some Panic)) \<and>
         (opc AND 0xF000 \<noteq> 0x2000 \<and> \<not> (opc AND 0xF000 = 0x0000 \<and> opKK opc = 0xEE) \<longrightarrow>
            (\<forall>r vm'. ReadNextInstruction rnd vm = Some r \<and> left r = Some vm' \<longrightarrow>
                      sp vm' = sp vm)) \<and>
         (\<forall>r vm'. ReadNextInstruction rnd vm = Some r \<and> left r = Some vm' \<longrightarrow>
                   unat (sp vm') \<le> 16)"
proof -
  have call: "opc AND 0xF000 = 0x2000 \<Longrightarrow>
            (if unat (sp vm) < 16
             then \<exists>vm'. ReadNextInstruction rnd vm = Some (Ok vm') \<and>
                         unat (sp vm') = unat (sp vm) + 1
             else ReadNextInstruction rnd vm = Some Panic)"
    using CALL_step [OF f, of rnd] by (simp add: unat_sp_inc)
  have ret: "opc AND 0xF000 = 0x0000 \<and> opKK opc = 0xEE \<Longrightarrow>
            (if 0 < unat (sp vm)
             then \<exists>vm'. ReadNextInstruction rnd vm = Some (Ok vm') \<and>
                         unat (sp vm') = unat (sp vm) - 1
             else ReadNextInstruction rnd vm = Some Panic)"
    using RET_step [OF f, of rnd] b by (auto simp add: unat_sp_dec unat_sp_dec0)
  have other: "opc AND 0xF000 \<noteq> 0x2000 \<and> \<not> (opc AND 0xF000 = 0x0000 \<and> opKK opc = 0xEE) \<Longrightarrow>
            ReadNextInstruction rnd vm = Some r \<and> left r = Some vm' \<Longrightarrow> sp vm' = sp vm" for r vm'
    using sp_other [OF f, of rnd r vm'] by blast
  have inv: "unat (sp vm') \<le> 16"
    if h: "ReadNextInstruction rnd vm = Some r \<and> left r = Some vm'" for r vm'
  proof -
    consider (c) "opc AND 0xF000 = 0x2000" | (r) "opc AND 0xF000 = 0x0000 \<and> opKK opc = 0xEE"
      | (o) "opc AND 0xF000 \<noteq> 0x2000 \<and> \<not> (opc AND 0xF000 = 0x0000 \<and> opKK opc = 0xEE)"
      by blast
    then show ?thesis
    proof cases
      case c
      then show ?thesis using call h by (auto split: if_splits)
    next
      case r
      then show ?thesis using ret h b by (auto split: if_splits)
    next
      case o
      then show ?thesis using other [OF o h] b by simp
    qed
  qed
  show ?thesis using call ret other inv by blast
qed

theorem stack_pointer_step_witness:
  "fetch (boot [0x22, 0x00]) = Some 0x2200 \<and> unat (sp (boot [0x22, 0x00])) \<le> 16 \<and>
   (\<exists>vm'. ReadNextInstruction 0 (boot [0x22, 0x00]) = Some (Ok vm') \<and> unat (sp vm') = 1) \<and>
   fetch ((boot [0x00, 0xEE])\<lparr>sp := 1\<rparr>) = Some 0x00EE \<and>
   (\<exists>vm'. ReadNextInstruction 0 ((boot [0x00, 0xEE])\<lparr>sp := 1\<rparr>) = Some (Ok vm') \<and>
          unat (sp vm') = 0) \<and>
   fetch (boot [0x60, 0x01]) = Some 0x6001 \<and>
   (\<exists>vm'. ReadNextInstruction 0 (boot [0x60, 0x01]) = Some (Ok vm') \<and> unat (sp vm') = 0)"
proof -
  have fA: "fetch (boot [0x22, 0x00]) = Some 0x2200"
    and sA: "sp (boot [0x22, 0x00]) = 0"
    by (simp_all add: boot_ev)
  have fB: "fetch ((boot [0x00, 0xEE])\<lparr>sp := 1\<rparr>) = Some 0x00EE"
    and sB: "sp ((boot [0x00, 0xEE])\<lparr>sp := 1\<rparr>) = 1"
    by (simp_all add: boot_ev)
  have fC: "fetch (boot [0x60, 0x01]) = Some 0x6001"
    and sC: "sp (boot [0x60, 0x01]) = 0"
    by (simp_all add: boot_ev)
  have A: "\<exists>vm'. ReadNextInstruction 0 (boot [0x22, 0x00]) = Some (Ok vm') \<and> unat (sp vm') = 1"
    using stack_pointer_step [OF fA, of 0, THEN conjunct1] by (simp add: sA)
  have B: "\<exists>vm'. ReadNextInstruction 0 ((boot [0x00, 0xEE])\<lparr>sp := 1\<rparr>) = Some (Ok vm') \<and>
             unat (sp vm') = 0"
    using stack_pointer_step [OF fB, of 0, THEN conjunct2, THEN conjunct1]
    by (simp add: sB opKK_def)
  obtain w where w: "ReadNextInstruction 0 (boot [0x60, 0x01]) = Some (Ok w)"
    by (simp add: ev)
  have "sp w = sp (boot [0x60, 0x01])"
    using stack_pointer_step [OF fC, of 0, THEN conjunct2, THEN conjunct2, THEN conjunct1] w
    by (simp add: sC opKK_def)
  then have C: "\<exists>vm'. ReadNextInstruction 0 (boot [0x60, 0x01]) = Some (Ok vm') \<and>
                  unat (sp vm') = 0"
    using w by (simp add: sC)
  show ?thesis using fA sA fB fC A B C by simp
qed

text \<open>
  The claim as stated fails: the program \<open>2200\<close> calls itself; after 15 calls the
  stack pointer is 15, and the 16th call returns with the stack pointer at 16.
\<close>

theorem stack_pointer_counterexample:
  "final sp (cycles [0, 0, 0, 0, 0, 0, 0, 0, 0, 0, 0, 0, 0, 0, 0] (boot [0x22, 0x00])) = Some 15 \<and>
   final sp (cycles [0, 0, 0, 0, 0, 0, 0, 0, 0, 0, 0, 0, 0, 0, 0, 0] (boot [0x22, 0x00])) = Some 16"
  by (simp add: ev)

end
